theory Spec2Isabelle
  imports Main "HOL-Library.Multiset" "HOL-Library.Char_ord" "HOL-Library.List_Lexorder"
begin

section \<open>The data model of App.tsx\<close>

text \<open>
  \<^verbatim>\<open>type Story = { objectID: string; url: string; title: string; author: string;
                 num_comments: number; points: number; }\<close>
  The two numbers are counts delivered by the search API and are modelled as integers;
  strings are compared character by character, by character code.
\<close>

record Story =
  objectID :: string
  url :: string
  title :: string
  author :: string
  num_comments :: int
  points :: int

type_synonym Stories = "Story list"

record StoriesState =
  data :: Stories
  isLoading :: bool
  isError :: bool
  reverse :: bool

text \<open>
  The union \<^verbatim>\<open>StoriesAction\<close>. The reducer's \<^verbatim>\<open>switch\<close> has a \<^verbatim>\<open>default\<close> branch that
  throws; a well-typed caller never reaches it, so the model adds one constructor for an
  action whose \<^verbatim>\<open>type\<close> tag is none of the five (the tag is its argument).
\<close>

datatype StoriesAction =
    STORIES_FETCH_INIT
  | STORIES_FETCH_SUCCESS Stories
  | STORIES_FETCH_FAILURE
  | REMOVE_STORY Story
  | SORT_STORIES string
  | UNTYPED_ACTION string

datatype error = Error

section \<open>The library call \<^verbatim>\<open>_.sortBy(collection, path)\<close>\<close>

text \<open>
  lodash is a dependency, not part of the repository. Its \<^verbatim>\<open>sortBy\<close> reads the property
  named by the string from every element, and sorts the elements in ascending order of
  these values with \<^verbatim>\<open>compareAscending\<close>, keeping elements that compare equal in their
  original order (a stable sort); it returns a new array.

  A property of a \<^verbatim>\<open>Story\<close> is a string, a number, or \<^verbatim>\<open>undefined\<close> when the story has no
  property of that name. A name that is not one of the six fields yields \<^verbatim>\<open>undefined\<close>:
  paths into a value (\<^verbatim>\<open>title.length\<close>) and properties inherited from \<^verbatim>\<open>Object\<close> are not
  modelled.
\<close>

datatype jsval = Undefined | Num int | Str string

definition property :: "string \<Rightarrow> Story \<Rightarrow> jsval" where
  "property path story =
     (if path = ''objectID'' then Str (objectID story)
      else if path = ''url'' then Str (url story)
      else if path = ''title'' then Str (title story)
      else if path = ''author'' then Str (author story)
      else if path = ''num_comments'' then Num (num_comments story)
      else if path = ''points'' then Num (points story)
      else Undefined)"

text \<open>
  JavaScript's \<^verbatim>\<open>a > b\<close> and \<^verbatim>\<open>a < b\<close>. A comparison with \<^verbatim>\<open>undefined\<close> is false. Comparing
  a number with a string would convert the string to a number first; that case is given
  the answer for a string that is not a numeral (false) and never arises for the values
  of one property, which all have the same type (lemma \<open>property_kind\<close> below).
\<close>

fun js_gt :: "jsval \<Rightarrow> jsval \<Rightarrow> bool" where
  "js_gt (Num a) (Num b) = (b < a)"
| "js_gt (Str a) (Str b) = (b < a)"
| "js_gt _ _ = False"

fun js_lt :: "jsval \<Rightarrow> jsval \<Rightarrow> bool" where
  "js_lt (Num a) (Num b) = (a < b)"
| "js_lt (Str a) (Str b) = (a < b)"
| "js_lt _ _ = False"

text \<open>
  \<^verbatim>\<open>compareAscending(value, other)\<close> of lodash, for values that are neither \<^verbatim>\<open>null\<close>, a
  symbol nor \<^verbatim>\<open>NaN\<close>: 1 when \<^verbatim>\<open>value > other\<close> or \<^verbatim>\<open>value\<close> is undefined, -1 when
  \<^verbatim>\<open>value < other\<close> or \<^verbatim>\<open>other\<close> is undefined, 0 otherwise; undefined sorts last.
\<close>

definition compareAscending :: "jsval \<Rightarrow> jsval \<Rightarrow> int" where
  "compareAscending v other =
     (if v \<noteq> other then
        (if js_gt v other \<or> v = Undefined then 1
         else if js_lt v other \<or> other = Undefined then - 1
         else 0)
      else 0)"

definition compareBy :: "string \<Rightarrow> Story \<Rightarrow> Story \<Rightarrow> int" where
  "compareBy path a b = compareAscending (property path a) (property path b)"

text \<open>The stable sort: an element is inserted in front of the first one it does not exceed.\<close>

fun insertBy :: "('a \<Rightarrow> 'a \<Rightarrow> int) \<Rightarrow> 'a \<Rightarrow> 'a list \<Rightarrow> 'a list" where
  "insertBy c x [] = [x]"
| "insertBy c x (y # ys) = (if c x y \<le> 0 then x # y # ys else y # insertBy c x ys)"

fun sortWith :: "('a \<Rightarrow> 'a \<Rightarrow> int) \<Rightarrow> 'a list \<Rightarrow> 'a list" where
  "sortWith c [] = []"
| "sortWith c (x # xs) = insertBy c x (sortWith c xs)"

definition sortBy :: "Stories \<Rightarrow> string \<Rightarrow> Stories" where
  "sortBy collection path = sortWith (compareBy path) collection"

text \<open>The values of one property all have the same type.\<close>

datatype kind = KUndefined | KNum | KStr

fun kind_of :: "jsval \<Rightarrow> kind" where
  "kind_of Undefined = KUndefined"
| "kind_of (Num n) = KNum"
| "kind_of (Str s) = KStr"

text \<open>
  What it means for a list of stories to be in ascending or descending order of a
  property: no story compares greater (smaller) than a later one; strictly, when every
  story compares smaller (greater) than every later one.
\<close>

definition ascendingBy :: "string \<Rightarrow> Stories \<Rightarrow> bool" where
  "ascendingBy path xs = sorted_wrt (\<lambda>a b. compareBy path a b \<le> 0) xs"

definition descendingBy :: "string \<Rightarrow> Stories \<Rightarrow> bool" where
  "descendingBy path xs = sorted_wrt (\<lambda>a b. compareBy path b a \<le> 0) xs"

definition strictlyAscendingBy :: "string \<Rightarrow> Stories \<Rightarrow> bool" where
  "strictlyAscendingBy path xs = sorted_wrt (\<lambda>a b. compareBy path a b < 0) xs"

definition strictlyDescendingBy :: "string \<Rightarrow> Stories \<Rightarrow> bool" where
  "strictlyDescendingBy path xs = sorted_wrt (\<lambda>a b. compareBy path b a < 0) xs"

section \<open>The reducer\<close>

text \<open>
  \<^verbatim>\<open>storiesReducer(state, action)\<close>: each case returns a fresh object spread from
  \<^verbatim>\<open>state\<close>; \<^verbatim>\<open>filter\<close>, \<^verbatim>\<open>sortBy\<close> build new arrays and \<^verbatim>\<open>reverse()\<close> is applied to the array
  \<^verbatim>\<open>sortBy\<close> has just built, so the old state is never changed. The \<^verbatim>\<open>default\<close> case throws.
\<close>

fun storiesReducer :: "StoriesState \<Rightarrow> StoriesAction \<Rightarrow> error + StoriesState" where
  "storiesReducer state STORIES_FETCH_INIT =
     Inr (state\<lparr>isLoading := True, isError := False\<rparr>)"
| "storiesReducer state (STORIES_FETCH_SUCCESS payload) =
     Inr (state\<lparr>isLoading := False, isError := False, data := payload\<rparr>)"
| "storiesReducer state STORIES_FETCH_FAILURE =
     Inr (state\<lparr>isLoading := False, isError := True\<rparr>)"
| "storiesReducer state (REMOVE_STORY payload) =
     Inr (state\<lparr>data := filter (\<lambda>story. objectID payload \<noteq> objectID story) (data state)\<rparr>)"
| "storiesReducer state (SORT_STORIES payload) =
     (if reverse state
      then Inr (state\<lparr>reverse := False, data := sortBy (data state) payload\<rparr>)
      else Inr (state\<lparr>reverse := True, data := rev (sortBy (data state) payload)\<rparr>))"
| "storiesReducer state (UNTYPED_ACTION tag) = Inl Error"

text \<open>The state \<^verbatim>\<open>useReducer\<close> starts from, and a sequence of dispatched actions; a throw
  ends the sequence.\<close>

definition initialState :: StoriesState where
  "initialState = \<lparr>data = [], isLoading = False, isError = False, reverse = False\<rparr>"

fun dispatchAll :: "StoriesState \<Rightarrow> StoriesAction list \<Rightarrow> error + StoriesState" where
  "dispatchAll state [] = Inr state"
| "dispatchAll state (action # actions) =
     (case storiesReducer state action of
        Inl e \<Rightarrow> Inl e
      | Inr state' \<Rightarrow> dispatchAll state' actions)"

section \<open>The sort buttons\<close>

text \<open>
  \<^verbatim>\<open>handleSortStories(item)\<close> dispatches \<^verbatim>\<open>{type: 'SORT_STORIES', payload: item}\<close>;
  \<^verbatim>\<open>onClickFilter(filterField, onSort)\<close> calls \<^verbatim>\<open>onSort(filterField)\<close>; a \<^verbatim>\<open>CustomButton\<close>
  shows \<^verbatim>\<open>textField\<close> and on a click calls \<^verbatim>\<open>onClickFilter(filterField, onSort)\<close>. \<^verbatim>\<open>App\<close>
  renders three of them, all with \<^verbatim>\<open>onSort={handleSortStories}\<close>.
\<close>

record CustomButtonInfo =
  textField :: string
  filterField :: string

definition handleSortStories :: "string \<Rightarrow> StoriesAction" where
  "handleSortStories item = SORT_STORIES item"

definition onClickFilter :: "string \<Rightarrow> (string \<Rightarrow> 'a) \<Rightarrow> 'a" where
  "onClickFilter field onSort = onSort field"

definition sortButtons :: "CustomButtonInfo list" where
  "sortButtons =
     [\<lparr>textField = ''author'', filterField = ''author''\<rparr>,
      \<lparr>textField = ''topic'', filterField = ''topic''\<rparr>,
      \<lparr>textField = ''comments'', filterField = ''num_comments''\<rparr>]"

definition onClick :: "CustomButtonInfo \<Rightarrow> StoriesAction" where
  "onClick button = onClickFilter (filterField button) handleSortStories"

text \<open>The action dispatched by a click on the button labelled \<open>label\<close>, if there is one.\<close>

definition clickHeader :: "string \<Rightarrow> StoriesAction option" where
  "clickHeader label = map_option onClick (find (\<lambda>b. textField b = label) sortButtons)"

section \<open>Stories of the scenarios\<close>

definition story1 :: Story where
  "story1 = \<lparr>objectID = ''1'', url = '''', title = ''A'', author = ''X'',
             num_comments = 2, points = 5\<rparr>"

definition story2 :: Story where
  "story2 = \<lparr>objectID = ''2'', url = '''', title = ''B'', author = ''Y'',
             num_comments = 1, points = 9\<rparr>"

text \<open>The state of the scenarios after the two stories have been fetched.\<close>

definition twoStories :: StoriesState where
  "twoStories = \<lparr>data = [story1, story2], isLoading = False, isError = False, reverse = False\<rparr>"

text \<open>The same two stories, delivered in the other order.\<close>

definition twoStoriesSwapped :: StoriesState where
  "twoStoriesSwapped =
     \<lparr>data = [story2, story1], isLoading = False, isError = False, reverse = False\<rparr>"

section \<open>Properties of states and actions\<close>

text \<open>No two stories of the list have the same \<^verbatim>\<open>objectID\<close>.\<close>

definition uniqueIds :: "Stories \<Rightarrow> bool" where
  "uniqueIds xs = distinct (map objectID xs)"

text \<open>The number of stories of the list with the \<^verbatim>\<open>objectID\<close> of \<open>a\<close>.\<close>

definition occurrences :: "Story \<Rightarrow> Stories \<Rightarrow> nat" where
  "occurrences a xs = length (filter (\<lambda>story. objectID story = objectID a) xs)"

text \<open>An action of the union \<^verbatim>\<open>StoriesAction\<close>.\<close>

fun typedAction :: "StoriesAction \<Rightarrow> bool" where
  "typedAction (UNTYPED_ACTION tag) = False"
| "typedAction action = True"

text \<open>A fetched payload in which no identifier occurs twice; any other action.\<close>

fun uniquePayload :: "StoriesAction \<Rightarrow> bool" where
  "uniquePayload (STORIES_FETCH_SUCCESS payload) = uniqueIds payload"
| "uniquePayload action = True"

section \<open>Unfolding the definitions on concrete stories\<close>

lemmas scenario_defs = twoStories_def twoStoriesSwapped_def story1_def story2_def
lemmas compare_defs = sortBy_def compareBy_def compareAscending_def property_def
lemmas order_defs =
  ascendingBy_def descendingBy_def strictlyAscendingBy_def strictlyDescendingBy_def
lemmas button_defs =
  clickHeader_def sortButtons_def onClick_def onClickFilter_def handleSortStories_def

section \<open>The comparison on the values of one property\<close>

lemma property_kind: "kind_of (property path a) = kind_of (property path b)"
  by (simp add: property_def)

lemma compareAscending_trans:
  "kind_of u = kind_of v \<Longrightarrow> kind_of v = kind_of w \<Longrightarrow>
   compareAscending u v \<le> 0 \<Longrightarrow> compareAscending v w \<le> 0 \<Longrightarrow> compareAscending u w \<le> 0"
  by (cases u; cases v; cases w) (auto simp: compareAscending_def split: if_splits)

lemma compareAscending_total:
  "kind_of u = kind_of v \<Longrightarrow> compareAscending u v \<le> 0 \<or> compareAscending v u \<le> 0"
  by (cases u; cases v) (auto simp: compareAscending_def split: if_splits)

lemma compareAscending_flip: "compareAscending u v < 0 \<Longrightarrow> 0 < compareAscending v u"
  by (cases u; cases v) (auto simp: compareAscending_def split: if_splits)

lemma compareBy_trans:
  "compareBy path a b \<le> 0 \<Longrightarrow> compareBy path b c \<le> 0 \<Longrightarrow> compareBy path a c \<le> 0"
  unfolding compareBy_def
  using compareAscending_trans [OF property_kind property_kind] .

lemma compareBy_total: "compareBy path a b \<le> 0 \<or> compareBy path b a \<le> 0"
  unfolding compareBy_def by (rule compareAscending_total [OF property_kind])

lemma compareBy_flip: "compareBy path a b < 0 \<Longrightarrow> 0 < compareBy path b a"
  unfolding compareBy_def by (rule compareAscending_flip)

section \<open>The sort: a permutation, ordered, stable\<close>

lemma mset_insertBy: "mset (insertBy c x xs) = add_mset x (mset xs)"
  by (induction xs) auto

lemma mset_sortWith: "mset (sortWith c xs) = mset xs"
  by (induction xs) (auto simp: mset_insertBy)

lemma mset_sortBy: "mset (sortBy xs path) = mset xs"
  by (simp add: sortBy_def mset_sortWith)

lemma set_insertBy: "set (insertBy c x xs) = insert x (set xs)"
  by (induction xs) auto

lemma sorted_insertBy:
  assumes trans: "\<And>a b d. c a b \<le> 0 \<Longrightarrow> c b d \<le> 0 \<Longrightarrow> c a d \<le> 0"
    and total: "\<And>a b. c a b \<le> 0 \<or> c b a \<le> 0"
  shows "sorted_wrt (\<lambda>a b. c a b \<le> 0) xs
         \<Longrightarrow> sorted_wrt (\<lambda>a b. c a b \<le> 0) (insertBy c x xs)"
proof (induction xs)
  case Nil
  show ?case by simp
next
  case (Cons y ys)
  show ?case
  proof (cases "c x y \<le> 0")
    case True
    have "c x z \<le> 0" if "z \<in> set ys" for z
      using Cons.prems that trans [OF True] by auto
    with True Cons.prems show ?thesis by auto
  next
    case False
    with total [of x y] have "c y x \<le> 0" by auto
    with False Cons show ?thesis by (auto simp: set_insertBy)
  qed
qed

lemma sorted_sortWith:
  assumes trans: "\<And>a b d. c a b \<le> 0 \<Longrightarrow> c b d \<le> 0 \<Longrightarrow> c a d \<le> 0"
    and total: "\<And>a b. c a b \<le> 0 \<or> c b a \<le> 0"
  shows "sorted_wrt (\<lambda>a b. c a b \<le> 0) (sortWith c xs)"
  by (induction xs) (auto intro: sorted_insertBy [OF trans total])

lemma ascendingBy_sortBy: "ascendingBy path (sortBy xs path)"
  unfolding ascendingBy_def sortBy_def
  by (rule sorted_sortWith [OF compareBy_trans compareBy_total])

lemma descendingBy_rev: "descendingBy path (rev xs) = ascendingBy path xs"
  by (simp add: descendingBy_def ascendingBy_def sorted_wrt_rev)

text \<open>Stories with the same value of the property keep their order.\<close>

lemma filter_insertBy:
  assumes eq: "\<And>a b. key a = key b \<Longrightarrow> c a b = 0"
  shows "filter (\<lambda>y. key y = k) (insertBy c x xs)
         = (if key x = k then x # filter (\<lambda>y. key y = k) xs else filter (\<lambda>y. key y = k) xs)"
proof (induction xs)
  case Nil
  show ?case by simp
next
  case (Cons y ys)
  show ?case
  proof (cases "c x y \<le> 0")
    case True
    then show ?thesis by simp
  next
    case False
    with eq [of x y] have "key x \<noteq> key y" by auto
    with False Cons.IH show ?thesis by auto
  qed
qed

lemma sortWith_stable:
  assumes eq: "\<And>a b. key a = key b \<Longrightarrow> c a b = 0"
  shows "filter (\<lambda>y. key y = k) (sortWith c xs) = filter (\<lambda>y. key y = k) xs"
  by (induction xs) (simp_all add: filter_insertBy [where key = key, OF eq])

lemma sortBy_stable:
  "filter (\<lambda>y. property path y = k) (sortBy xs path) = filter (\<lambda>y. property path y = k) xs"
  unfolding sortBy_def
  by (rule sortWith_stable) (simp add: compareBy_def compareAscending_def)

text \<open>Sorting a list that is already in order, and one that is strictly in the other order.\<close>

lemma sortWith_sorted:
  "sorted_wrt (\<lambda>a b. c a b \<le> 0) xs \<Longrightarrow> sortWith c xs = xs"
proof (induction xs)
  case Nil
  show ?case by simp
next
  case (Cons x xs)
  then have "sortWith c xs = xs" by simp
  with Cons.prems show ?case by (cases xs) auto
qed

lemma insertBy_last: "\<forall>y\<in>set ys. 0 < c x y \<Longrightarrow> insertBy c x ys = ys @ [x]"
  by (induction ys) auto

lemma sortWith_descending:
  assumes flip: "\<And>a b. c a b < 0 \<Longrightarrow> 0 < c b a"
  shows "sorted_wrt (\<lambda>a b. c b a < 0) xs \<Longrightarrow> sortWith c xs = rev xs"
proof (induction xs)
  case Nil
  show ?case by simp
next
  case (Cons x xs)
  then have "sortWith c xs = rev xs" by simp
  moreover have "\<forall>y\<in>set (rev xs). 0 < c x y"
    using Cons.prems flip by auto
  ultimately show ?case by (simp add: insertBy_last)
qed

lemma sortBy_ascending: "ascendingBy field xs \<Longrightarrow> sortBy xs field = xs"
  unfolding ascendingBy_def sortBy_def by (rule sortWith_sorted)

lemma sortBy_strictlyDescending: "strictlyDescendingBy field xs \<Longrightarrow> sortBy xs field = rev xs"
  unfolding strictlyDescendingBy_def sortBy_def
  by (rule sortWith_descending [OF compareBy_flip])

lemma strictlyAscendingBy_ascending: "strictlyAscendingBy field xs \<Longrightarrow> ascendingBy field xs"
  unfolding strictlyAscendingBy_def ascendingBy_def
  by (erule sorted_wrt_mono_rel [rotated]) simp

lemma strictlyDescendingBy_rev:
  "strictlyDescendingBy field (rev xs) = strictlyAscendingBy field xs"
  by (simp add: strictlyDescendingBy_def strictlyAscendingBy_def sorted_wrt_rev)

lemma strictlyAscendingBy_rev:
  "strictlyAscendingBy field (rev xs) = strictlyDescendingBy field xs"
  by (simp add: strictlyDescendingBy_def strictlyAscendingBy_def sorted_wrt_rev)

lemma sort_rev_sort_strict:
  assumes "strictlyAscendingBy field xs"
  shows "sortBy (rev (sortBy xs field)) field = xs"
proof -
  have "sortBy xs field = xs"
    using assms by (simp add: sortBy_ascending strictlyAscendingBy_ascending)
  moreover have "sortBy (rev xs) field = rev (rev xs)"
    using assms by (intro sortBy_strictlyDescending) (simp add: strictlyDescendingBy_rev)
  ultimately show ?thesis by simp
qed

lemma rev_sort_sort_strict:
  assumes "strictlyDescendingBy field xs"
  shows "rev (sortBy (sortBy xs field) field) = xs"
proof -
  have "sortBy xs field = rev xs"
    using assms by (rule sortBy_strictlyDescending)
  moreover have "sortBy (rev xs) field = rev xs"
    using assms
    by (intro sortBy_ascending strictlyAscendingBy_ascending) (simp add: strictlyAscendingBy_rev)
  ultimately show ?thesis by simp
qed

lemma sort_twice_data:
  "dispatchAll s [SORT_STORIES field, SORT_STORIES field]
     = Inr (s\<lparr>data := (if reverse s then rev (sortBy (sortBy (data s) field) field)
                       else sortBy (rev (sortBy (data s) field)) field)\<rparr>)"
  by simp

section \<open>Unique identifiers are kept by every action\<close>

lemma uniqueIds_mset: "mset xs = mset ys \<Longrightarrow> uniqueIds xs = uniqueIds ys"
proof -
  assume "mset xs = mset ys"
  then have "mset (map objectID xs) = mset (map objectID ys)"
    by (metis mset_map)
  then show ?thesis
    unfolding uniqueIds_def by (rule mset_eq_imp_distinct_iff)
qed

lemma uniqueIds_sortBy: "uniqueIds (sortBy xs field) = uniqueIds xs"
  by (rule uniqueIds_mset) (rule mset_sortBy)

lemma uniqueIds_rev: "uniqueIds (rev xs) = uniqueIds xs"
  by (simp add: uniqueIds_def rev_map [symmetric])

lemma uniqueIds_filter: "uniqueIds xs \<Longrightarrow> uniqueIds (filter P xs)"
  by (simp add: uniqueIds_def distinct_map_filter)

lemma storiesReducer_uniqueIds:
  assumes "uniqueIds (data s)" "typedAction action" "uniquePayload action"
  shows "\<exists>t. storiesReducer s action = Inr t \<and> uniqueIds (data t)"
  using assms
  by (cases action) (simp_all add: uniqueIds_sortBy uniqueIds_rev uniqueIds_filter)

lemma dispatchAll_uniqueIds:
  "uniqueIds (data s) \<Longrightarrow> list_all typedAction actions \<Longrightarrow> list_all uniquePayload actions
   \<Longrightarrow> \<exists>t. dispatchAll s actions = Inr t \<and> uniqueIds (data t)"
proof (induction actions arbitrary: s)
  case Nil
  then show ?case by simp
next
  case (Cons action actions)
  then obtain s' where step: "storiesReducer s action = Inr s'" and unique: "uniqueIds (data s')"
    using storiesReducer_uniqueIds [of s action] by auto
  from Cons.IH [OF unique] Cons.prems obtain t
    where "dispatchAll s' actions = Inr t" "uniqueIds (data t)" by auto
  with step show ?case by simp
qed

lemma length_filter_split:
  "length (filter (\<lambda>x. \<not> P x) xs) + length (filter P xs) = length xs"
  by (induction xs) auto

text \<open>
  A story that is in a list with unique identifiers is the only one there with its
  identifier.
\<close>

lemma occurrences_absent: "objectID a \<notin> set (map objectID xs) \<Longrightarrow> occurrences a xs = 0"
  by (induction xs) (auto simp: occurrences_def)

lemma occurrences_member_unique:
  "a \<in> set xs \<Longrightarrow> uniqueIds xs \<Longrightarrow> occurrences a xs = 1"
proof (induction xs)
  case Nil
  then show ?case by simp
next
  case (Cons x xs)
  show ?case
  proof (cases "a = x")
    case True
    with Cons.prems have "objectID a \<notin> set (map objectID xs)"
      by (simp add: uniqueIds_def)
    then have "occurrences a xs = 0" by (rule occurrences_absent)
    with True show ?thesis by (simp add: occurrences_def)
  next
    case False
    with Cons.prems have "a \<in> set xs" and "uniqueIds xs" and "objectID x \<noteq> objectID a"
      by (auto simp: uniqueIds_def)
    with Cons.IH show ?thesis by (simp add: occurrences_def)
  qed
qed

section \<open>The sort command\<close>

text \<open>
  Claim C1, as stated, fails. In the state of the scenario (stories 1 and 2 with 5 and 9
  points, \<open>reverse\<close> false) the claim expects SORT_STORIES on \<open>points\<close> to give the
  ascending order, story 1 then story 2. The reducer gives story 2 then story 1, which
  is not ascending: with \<open>reverse\<close> false it takes the branch that reverses the sorted
  list.
\<close>

theorem sort_first_click_descending:
  "reverse twoStories = False
   \<and> storiesReducer twoStories (SORT_STORIES ''points'')
       = Inr \<lparr>data = [story2, story1], isLoading = False, isError = False, reverse = True\<rparr>
   \<and> sortBy (data twoStories) ''points'' = [story1, story2]
   \<and> \<not> ascendingBy ''points'' [story2, story1]"
  by (simp add: scenario_defs compare_defs order_defs)

text \<open>
  Claim C1, amended: the two directions are the other way round. In a state whose
  \<open>reverse\<close> flag is false, SORT_STORIES sorts the items ascending by the field and
  reverses the result, so that the items are in descending order, and sets the flag to
  true; in a state whose flag is true, it sorts the items ascending by the field and
  sets the flag to false. In both cases the items are a permutation of the prior ones.
\<close>

theorem sort_toggle:
  "(\<not> reverse s \<longrightarrow>
      (\<exists>t. storiesReducer s (SORT_STORIES field) = Inr t
         \<and> data t = rev (sortBy (data s) field) \<and> descendingBy field (data t)
         \<and> mset (data t) = mset (data s) \<and> reverse t = True))
   \<and> (reverse s \<longrightarrow>
      (\<exists>t. storiesReducer s (SORT_STORIES field) = Inr t
         \<and> data t = sortBy (data s) field \<and> ascendingBy field (data t)
         \<and> mset (data t) = mset (data s) \<and> reverse t = False))"
  by (simp add: descendingBy_rev ascendingBy_sortBy mset_sortBy)

text \<open>
  Claim C1, both branches on the two stories: from \<open>reverse\<close> false the stories come out
  by descending points, from \<open>reverse\<close> true by ascending points.
\<close>

theorem sort_toggle_witness:
  "(\<not> reverse twoStories
      \<and> (\<exists>t. storiesReducer twoStories (SORT_STORIES ''points'') = Inr t
           \<and> data t = [story2, story1] \<and> descendingBy ''points'' (data t) \<and> reverse t = True))
   \<and> (reverse (twoStoriesSwapped\<lparr>reverse := True\<rparr>)
      \<and> (\<exists>t. storiesReducer (twoStoriesSwapped\<lparr>reverse := True\<rparr>) (SORT_STORIES ''points'')
                = Inr t
           \<and> data t = [story1, story2] \<and> ascendingBy ''points'' (data t) \<and> reverse t = False))"
  using sort_toggle [of twoStories "''points''"]
    sort_toggle [of "twoStoriesSwapped\<lparr>reverse := True\<rparr>" "''points''"]
  by (simp add: scenario_defs compare_defs)

text \<open>
  Claim C2, as stated, fails. With story 2 (9 points) before story 1 (5 points) and
  \<open>reverse\<close> false, two SORT_STORIES commands on \<open>points\<close> leave story 1 before story 2:
  the first gives the descending order, the second the ascending one, and neither
  remembers the order the items had before.
\<close>

theorem sort_twice_changes_order:
  "dispatchAll twoStoriesSwapped [SORT_STORIES ''points'', SORT_STORIES ''points'']
     = Inr \<lparr>data = [story1, story2], isLoading = False, isError = False, reverse = False\<rparr>
   \<and> data twoStoriesSwapped = [story2, story1]
   \<and> [story1, story2] \<noteq> [story2, story1]"
  by (simp add: scenario_defs compare_defs)

text \<open>
  Claim C2, amended. From every state and for every field, two consecutive SORT_STORIES
  commands return the \<open>reverse\<close> flag (and \<open>isLoading\<close>, \<open>isError\<close>) to the value before
  the pair and leave the items a permutation of the original ones, ordered by the
  field: ascending when the flag was false, descending when it was true. The items are
  back in their original order when they were already strictly in that order (strictly
  ascending by the field with the flag false, strictly descending with the flag true).
\<close>

theorem sort_twice:
  "\<exists>t. dispatchAll s [SORT_STORIES field, SORT_STORIES field] = Inr t
       \<and> reverse t = reverse s \<and> isLoading t = isLoading s \<and> isError t = isError s
       \<and> mset (data t) = mset (data s)
       \<and> (if reverse s then descendingBy field (data t) else ascendingBy field (data t))
       \<and> ((if reverse s then strictlyDescendingBy field (data s)
            else strictlyAscendingBy field (data s)) \<longrightarrow> data t = data s)"
proof -
  let ?t = "s\<lparr>data := (if reverse s then rev (sortBy (sortBy (data s) field) field)
                       else sortBy (rev (sortBy (data s) field)) field)\<rparr>"
  have run: "dispatchAll s [SORT_STORIES field, SORT_STORIES field] = Inr ?t"
    by (rule sort_twice_data)
  have perm: "mset (data ?t) = mset (data s)"
    by (simp add: mset_sortBy)
  have ordered: "if reverse s then descendingBy field (data ?t) else ascendingBy field (data ?t)"
    by (simp add: descendingBy_rev ascendingBy_sortBy)
  have restored: "(if reverse s then strictlyDescendingBy field (data s)
               else strictlyAscendingBy field (data s)) \<longrightarrow> data ?t = data s"
    by (simp add: sort_rev_sort_strict rev_sort_sort_strict)
  have flags: "reverse ?t = reverse s \<and> isLoading ?t = isLoading s \<and> isError ?t = isError s"
    by simp
  from run perm ordered restored flags show ?thesis by blast
qed

text \<open>
  Claim C2 on the scenario: stories 1 and 2 are strictly ascending by points and the flag
  is false; after two sorts they are in the same order and the flag is false again.
\<close>

theorem sort_twice_witness:
  "strictlyAscendingBy ''points'' (data twoStories) \<and> \<not> reverse twoStories
   \<and> (\<exists>t. dispatchAll twoStories [SORT_STORIES ''points'', SORT_STORIES ''points''] = Inr t
        \<and> reverse t = reverse twoStories \<and> data t = [story1, story2])"
proof -
  have strict: "strictlyAscendingBy ''points'' (data twoStories)"
    by (simp add: scenario_defs compare_defs order_defs)
  have flag: "\<not> reverse twoStories"
    by (simp add: twoStories_def)
  have items: "data twoStories = [story1, story2]"
    by (simp add: twoStories_def)
  from sort_twice [of twoStories "''points''"] strict flag items
  show ?thesis by auto
qed

text \<open>
  Claim C10. From every state and for every field name, SORT_STORIES returns a state
  whose items are a permutation of the prior items (the same stories, each as often as
  before) and whose \<open>isLoading\<close> and \<open>isError\<close> are those of the prior state.
\<close>

theorem sort_stories_permutation:
  "\<exists>t. storiesReducer s (SORT_STORIES field) = Inr t
       \<and> mset (data t) = mset (data s)
       \<and> isLoading t = isLoading s \<and> isError t = isError s"
  by (simp add: mset_sortBy)

section \<open>The sort buttons and the field they dispatch\<close>

text \<open>
  Claim C3 at the button labelled \<open>topic\<close>. A click on it dispatches SORT_STORIES with the
  field name \<open>topic\<close>, not \<open>title\<close>, while the button labelled \<open>comments\<close> dispatches
  \<open>num_comments\<close>. No story has a property \<open>topic\<close>, so the command does not order the
  stories by title: with story 2 (title B) before story 1 (title A) and \<open>reverse\<close> true,
  sorting by \<open>topic\<close> leaves story 2 first, where sorting by \<open>title\<close> puts story 1 first.
\<close>

theorem topic_button_sorts_by_topic:
  "clickHeader ''topic'' = Some (SORT_STORIES ''topic'')
   \<and> clickHeader ''topic'' \<noteq> Some (SORT_STORIES ''title'')
   \<and> clickHeader ''comments'' = Some (SORT_STORIES ''num_comments'')
   \<and> property ''topic'' story = Undefined
   \<and> storiesReducer (twoStoriesSwapped\<lparr>reverse := True\<rparr>) (SORT_STORIES ''topic'')
       = Inr (twoStoriesSwapped\<lparr>data := [story2, story1], reverse := False\<rparr>)
   \<and> storiesReducer (twoStoriesSwapped\<lparr>reverse := True\<rparr>) (SORT_STORIES ''title'')
       = Inr (twoStoriesSwapped\<lparr>data := [story1, story2], reverse := False\<rparr>)"
  by (simp add: button_defs scenario_defs compare_defs)

section \<open>The fetch lifecycle\<close>

text \<open>
  Claim C4. From every state, STORIES_FETCH_INIT returns (it does not throw) a state with
  \<open>isLoading\<close> true and \<open>isError\<close> false whose items are those of the prior state.
\<close>

theorem fetch_init_loading:
  "\<exists>t. storiesReducer s STORIES_FETCH_INIT = Inr t
       \<and> isLoading t = True \<and> isError t = False \<and> data t = data s"
  by simp

text \<open>
  Claim C5. From every state, STORIES_FETCH_FAILURE returns a state with \<open>isLoading\<close>
  false and \<open>isError\<close> true whose items are those of the prior state; and a fetch that is
  started and then fails leaves the items as they were before it began.
\<close>

theorem fetch_failure_error:
  "(\<exists>t. storiesReducer s STORIES_FETCH_FAILURE = Inr t
        \<and> isLoading t = False \<and> isError t = True \<and> data t = data s)
   \<and> (\<exists>t. dispatchAll s [STORIES_FETCH_INIT, STORIES_FETCH_FAILURE] = Inr t
        \<and> isLoading t = False \<and> isError t = True \<and> data t = data s)"
  by simp

text \<open>
  Claim C6. From every state and for every payload, STORIES_FETCH_SUCCESS returns a state
  whose items are exactly the payload, whatever the prior items were, with \<open>isLoading\<close>
  and \<open>isError\<close> false.
\<close>

theorem fetch_success_replaces:
  "\<exists>t. storiesReducer s (STORIES_FETCH_SUCCESS payload) = Inr t
       \<and> data t = payload \<and> isLoading t = False \<and> isError t = False"
  by simp

section \<open>Dismissing a story\<close>

text \<open>
  Claim C7. The reducer compares identifiers only, so a story is present when a story
  with its \<^verbatim>\<open>objectID\<close> is in the items. From every state in which exactly one item has
  the identifier of \<open>a\<close>, REMOVE_STORY \<open>a\<close> returns a state with one item less, in which no
  item has that identifier, and with \<open>isLoading\<close>, \<open>isError\<close> and \<open>reverse\<close> unchanged.
\<close>

theorem remove_story_present_once:
  assumes "occurrences a (data s) = 1"
  shows "\<exists>t. storiesReducer s (REMOVE_STORY a) = Inr t
           \<and> length (data t) + 1 = length (data s)
           \<and> (\<forall>story\<in>set (data t). objectID story \<noteq> objectID a)
           \<and> occurrences a (data t) = 0
           \<and> isLoading t = isLoading s \<and> isError t = isError s \<and> reverse t = reverse s"
proof -
  let ?kept = "filter (\<lambda>story. objectID a \<noteq> objectID story) (data s)"
  have same: "(\<lambda>story. objectID a \<noteq> objectID story) = (\<lambda>story. \<not> objectID story = objectID a)"
    by auto
  have "length ?kept + occurrences a (data s) = length (data s)"
    unfolding occurrences_def same by (rule length_filter_split)
  with assms have len: "length ?kept + 1 = length (data s)" by simp
  have gone: "\<forall>story\<in>set ?kept. objectID story \<noteq> objectID a" by auto
  have none: "occurrences a ?kept = 0"
    by (auto simp: occurrences_def filter_empty_conv)
  from len gone none show ?thesis by simp
qed

text \<open>Claim C7 on the scenario: dismissing story 1 from the two stories leaves story 2.\<close>

theorem remove_story_present_once_witness:
  "occurrences story1 (data twoStories) = 1
   \<and> (\<exists>t. storiesReducer twoStories (REMOVE_STORY story1) = Inr t
        \<and> length (data t) + 1 = length (data twoStories)
        \<and> data t = [story2])"
proof -
  have once: "occurrences story1 (data twoStories) = 1"
    by (simp add: occurrences_def scenario_defs)
  have result:
    "storiesReducer twoStories (REMOVE_STORY story1) = Inr (twoStories\<lparr>data := [story2]\<rparr>)"
    by (simp add: scenario_defs)
  from remove_story_present_once [OF once] obtain t
    where t: "storiesReducer twoStories (REMOVE_STORY story1) = Inr t"
      and len: "length (data t) + 1 = length (data twoStories)"
    by blast
  from t result have "data t = [story2]" by simp
  with once t len show ?thesis by blast
qed

text \<open>
  Claim C8. From every state in which no item has the identifier of \<open>a\<close>, REMOVE_STORY \<open>a\<close>
  returns (it does not throw) a state equal to the prior one.
\<close>

theorem remove_story_absent:
  assumes "\<forall>story\<in>set (data s). objectID story \<noteq> objectID a"
  shows "storiesReducer s (REMOVE_STORY a) = Inr s"
proof -
  have "filter (\<lambda>story. objectID a \<noteq> objectID story) (data s) = data s"
    using assms by (auto simp: filter_id_conv)
  then show ?thesis by simp
qed

text \<open>Claim C8 on the scenario: dismissing a story with identifier 3 changes nothing.\<close>

theorem remove_story_absent_witness:
  "''3'' \<notin> set (map objectID (data twoStories))
   \<and> storiesReducer twoStories (REMOVE_STORY (story1\<lparr>objectID := ''3''\<rparr>)) = Inr twoStories"
proof -
  have absent:
    "\<forall>story\<in>set (data twoStories). objectID story \<noteq> objectID (story1\<lparr>objectID := ''3''\<rparr>)"
    by (simp add: scenario_defs)
  have ids: "''3'' \<notin> set (map objectID (data twoStories))"
    by (simp add: scenario_defs)
  from remove_story_absent [OF absent] ids show ?thesis by simp
qed

section \<open>One story per identifier\<close>

text \<open>
  Claim C9, as stated, fails. STORIES_FETCH_SUCCESS stores its payload as it is; from
  the initial state, a payload that holds story 1 twice gives a state whose items hold
  two stories with the same identifier.
\<close>

theorem duplicate_payload_kept:
  "typedAction (STORIES_FETCH_SUCCESS [story1, story1])
   \<and> dispatchAll initialState [STORIES_FETCH_SUCCESS [story1, story1]]
       = Inr \<lparr>data = [story1, story1], isLoading = False, isError = False, reverse = False\<rparr>
   \<and> \<not> uniqueIds [story1, story1]"
  by (simp add: initialState_def uniqueIds_def)

text \<open>
  Claim C9, amended. When every fetched payload holds at most one story per identifier,
  every sequence of STORIES_FETCH_INIT, STORIES_FETCH_SUCCESS, STORIES_FETCH_FAILURE,
  REMOVE_STORY and SORT_STORIES commands runs from the initial state without a throw
  and ends in a state whose items hold at most one story per identifier.
\<close>

theorem reachable_uniqueIds:
  assumes "list_all typedAction actions" "list_all uniquePayload actions"
  shows "\<exists>t. dispatchAll initialState actions = Inr t \<and> uniqueIds (data t)"
proof -
  have "uniqueIds (data initialState)"
    by (simp add: initialState_def uniqueIds_def)
  then show ?thesis using assms by (rule dispatchAll_uniqueIds)
qed

text \<open>Claim C9 on a run: fetch the two stories, sort them by points, dismiss story 1.\<close>

theorem reachable_uniqueIds_witness:
  "list_all typedAction
     [STORIES_FETCH_INIT, STORIES_FETCH_SUCCESS [story1, story2], SORT_STORIES ''points'',
      REMOVE_STORY story1]
   \<and> list_all uniquePayload
     [STORIES_FETCH_INIT, STORIES_FETCH_SUCCESS [story1, story2], SORT_STORIES ''points'',
      REMOVE_STORY story1]
   \<and> (\<exists>t. dispatchAll initialState
        [STORIES_FETCH_INIT, STORIES_FETCH_SUCCESS [story1, story2], SORT_STORIES ''points'',
         REMOVE_STORY story1] = Inr t \<and> uniqueIds (data t))"
proof -
  let ?actions = "[STORIES_FETCH_INIT, STORIES_FETCH_SUCCESS [story1, story2],
    SORT_STORIES ''points'', REMOVE_STORY story1]"
  have typed: "list_all typedAction ?actions" by simp
  have unique: "list_all uniquePayload ?actions"
    by (simp add: uniqueIds_def story1_def story2_def)
  from reachable_uniqueIds [OF typed unique] typed unique show ?thesis by blast
qed

end
